theory Spec2Isabelle
  imports Main "HOL-Library.Sublist" "HOL-Library.Multiset"
begin

section \<open>JavaScript strings and plain objects\<close>

text \<open>
  The two TypeScript classes \<^verbatim>\<open>TsFileParser\<close> (src/ts-file-parser/index.ts) and
  \<^verbatim>\<open>MdWriter\<close> (src/md-writer/md-writer.ts) are embedded as functions that pass
  the instance state explicitly. A thrown exception is the left summand of a result.
\<close>

datatype error = ClassNameNotFound | TypeError | IOError

text \<open>Interpolation \<^verbatim>\<open>${x}\<close> inside a template literal: \<^verbatim>\<open>undefined\<close> prints as the
  nine letters of its name.\<close>

definition template :: "string option \<Rightarrow> string" where
  "template x = (case x of None \<Rightarrow> ''undefined'' | Some s \<Rightarrow> s)"

text \<open>\<^verbatim>\<open>Array.prototype.join\<close> on an array of strings.\<close>

fun join :: "string list \<Rightarrow> string \<Rightarrow> string" where
  "join [] sep = []"
| "join [x] sep = x"
| "join (x # y # ys) sep = x @ sep @ join (y # ys) sep"

text \<open>\<^verbatim>\<open>String.prototype.indexOf\<close>: the position of the first occurrence, or \<open>-1\<close>.\<close>

fun indexOf :: "string \<Rightarrow> string \<Rightarrow> int" where
  "indexOf [] searchString = (if searchString = [] then 0 else - 1)"
| "indexOf (c # cs) searchString =
     (if prefix searchString (c # cs) then 0
      else (let i = indexOf cs searchString in if i = - 1 then - 1 else i + 1))"

text \<open>\<^verbatim>\<open>String.prototype.slice(start, end)\<close>: a negative argument counts from the end of
  the string, and both are clamped to the string.\<close>

definition slice :: "string \<Rightarrow> int \<Rightarrow> int \<Rightarrow> string" where
  "slice s start fin =
     (let len = int (length s);
          lo = (if start < 0 then max (len + start) 0 else min start len);
          hi = (if fin < 0 then max (len + fin) 0 else min fin len)
      in take (nat (hi - lo)) (drop (nat lo) s))"

text \<open>\<^verbatim>\<open>slice(start)\<close> with the end left out runs to the end of the string.\<close>

definition sliceFrom :: "string \<Rightarrow> int \<Rightarrow> string" where
  "sliceFrom s start = slice s start (int (length s))"

text \<open>
  A plain object literal \<^verbatim>\<open>{}\<close> used as a dictionary: its own properties in insertion
  order, and behind them the properties every object inherits from
  \<^verbatim>\<open>Object.prototype\<close>. Reading \<^verbatim>\<open>obj[key]\<close> finds an own property first, then an
  inherited one, and is \<^verbatim>\<open>undefined\<close> otherwise.
\<close>

type_synonym 'v js_object = "(string \<times> 'v) list"

definition Object_prototype_keys :: "string list" where
  "Object_prototype_keys =
     [''constructor'', ''__defineGetter__'', ''__defineSetter__'', ''hasOwnProperty'',
      ''__lookupGetter__'', ''__lookupSetter__'', ''isPrototypeOf'', ''propertyIsEnumerable'',
      ''toString'', ''valueOf'', ''__proto__'', ''toLocaleString'']"

datatype 'v js_property = Own 'v | Inherited string | Undefined

definition getProp :: "'v js_object \<Rightarrow> string \<Rightarrow> 'v js_property" where
  "getProp obj key =
     (case map_of obj key of
        Some v \<Rightarrow> Own v
      | None \<Rightarrow> if key \<in> set Object_prototype_keys then Inherited key else Undefined)"

text \<open>Every value stored in the dictionaries of this program is an object, and the
  inherited properties are functions or objects: only \<^verbatim>\<open>undefined\<close> is falsy.\<close>

definition truthy :: "'v js_property \<Rightarrow> bool" where
  "truthy p = (case p of Undefined \<Rightarrow> False | Own v \<Rightarrow> True | Inherited k \<Rightarrow> True)"

text \<open>Assignment \<^verbatim>\<open>obj[key] = v\<close>: an own property keeps its place, a new one goes last.
  Both assignments of the program are guarded by \<^verbatim>\<open>!obj[key]\<close>, so the key is never
  \<^verbatim>\<open>__proto__\<close> there.\<close>

fun setProp :: "'v js_object \<Rightarrow> string \<Rightarrow> 'v \<Rightarrow> 'v js_object" where
  "setProp [] key v = [(key, v)]"
| "setProp ((k, w) # ps) key v =
     (if k = key then (k, v) # ps else (k, w) # setProp ps key v)"

text \<open>\<^verbatim>\<open>Object.keys\<close>: own keys that are array indices (canonical decimal numerals below
  \<open>2^32 - 1\<close>) in ascending numeric order, then all other keys in insertion order.\<close>

definition isDigit :: "char \<Rightarrow> bool" where
  "isDigit c = (48 \<le> (of_char c :: nat) \<and> (of_char c :: nat) \<le> 57)"

definition digitsValue :: "string \<Rightarrow> nat" where
  "digitsValue s = foldl (\<lambda>n c. 10 * n + (of_char c - 48)) 0 s"

definition isArrayIndex :: "string \<Rightarrow> bool" where
  "isArrayIndex s =
     (case s of
        [] \<Rightarrow> False
      | c # cs \<Rightarrow> list_all isDigit s \<and> (if c = CHR ''0'' then cs = [] else True)
                 \<and> digitsValue s < 4294967295)"

definition Object_keys :: "'v js_object \<Rightarrow> string list" where
  "Object_keys obj =
     sort_key digitsValue (filter isArrayIndex (map fst obj))
     @ filter (\<lambda>k. \<not> isArrayIndex k) (map fst obj)"

text \<open>\<^verbatim>\<open>Array.prototype.sort\<close> with a comparator is stable; insertion from the right
  keeps the earlier of two elements that compare equal in front. The comparator of the
  program, \<^verbatim>\<open>a.localeCompare(b, 'en', { sensitivity: 'base' })\<close>, belongs to the
  runtime's collation library and is a parameter of the model.\<close>

fun insertBy :: "(string \<Rightarrow> string \<Rightarrow> int) \<Rightarrow> string \<Rightarrow> string list \<Rightarrow> string list" where
  "insertBy cmp x [] = [x]"
| "insertBy cmp x (y # ys) = (if cmp x y \<le> 0 then x # y # ys else y # insertBy cmp x ys)"

definition Array_sort :: "(string \<Rightarrow> string \<Rightarrow> int) \<Rightarrow> string list \<Rightarrow> string list" where
  "Array_sort cmp xs = foldr (insertBy cmp) xs []"

section \<open>The syntax tree handed over by the parsing library\<close>

text \<open>
  Only what the program reads from a ts-morph node is kept: for a member declaration the
  fields of \<^verbatim>\<open>getStructure()\<close> that the reducers destructure, \<^verbatim>\<open>getText()\<close> and the
  comment text of each of \<^verbatim>\<open>getJsDocs()\<close> (a doc block may have no comment text).
  \<^verbatim>\<open>getBaseClass()\<close> yields the node of the base class, so a class carries its ancestors.
\<close>

datatype Scope = Public | Protected | Private

record MemberDeclaration =
  structName :: string
  structType :: "string option"
  structScope :: "Scope option"
  structIsStatic :: "bool option"
  memberText :: string
  memberJsDocs :: "string option list"

record ConstructorDeclaration =
  ctorText :: string
  ctorJsDocs :: "string option list"

datatype ClassDeclaration = ClassDeclaration
  (getName: "string option")
  (getTypeParameters: "string list")
  (getJsDocs: "string option list")
  (getConstructors: "ConstructorDeclaration list")
  (getProperties: "MemberDeclaration list")
  (getGetAccessors: "MemberDeclaration list")
  (getMethods: "MemberDeclaration list")
  (getBaseClass: "ClassDeclaration option")

section \<open>The extracted data (src/types/index.ts)\<close>

text \<open>\<^verbatim>\<open>PropertyMap\<close>, \<^verbatim>\<open>AccessorMap\<close> and \<^verbatim>\<open>MethodMap\<close> have the same four fields;
  \<open>memberType\<close> is \<^verbatim>\<open>type\<close> of the first and \<^verbatim>\<open>returnType\<close> of the other two. The
  constructor's title is declared a string, but \<^verbatim>\<open>setClassData\<close> stores
  \<^verbatim>\<open>undefined\<close> there when the class has no constructor.\<close>

record MemberMap =
  title :: string
  memberType :: string
  description :: "string option"
  isStatic :: bool

record ConstructorMap =
  ctorTitle :: "string option"
  ctorDescription :: "string option"

record ClassDataMap =
  classTitle :: string
  classDescription :: "string option"
  constructor :: ConstructorMap
  properties :: "MemberMap js_object"
  accessors :: "MemberMap js_object"
  methods :: "MemberMap js_object"

text \<open>Of the source file the parser only reads \<^verbatim>\<open>getClasses()\<close>; \<open>sourceFile\<close> is
  that list of class declarations, in the order of the file.\<close>

record TsFileParser =
  sourceFile :: "ClassDeclaration list"
  classesDataMap :: "ClassDataMap js_object"

section \<open>TsFileParser\<close>

text \<open>\<^verbatim>\<open>x.getJsDocs()?.[0]?.getCommentText()\<close>\<close>

definition firstCommentText :: "string option list \<Rightarrow> string option" where
  "firstCommentText docs = (case docs of [] \<Rightarrow> None | d # ds \<Rightarrow> d)"

text \<open>\<^verbatim>\<open>type ? String(type) : 'unknown'\<close>: the empty string is falsy as well.\<close>

definition typeOrUnknown :: "string option \<Rightarrow> string" where
  "typeOrUnknown t = (case t of None \<Rightarrow> ''unknown'' | Some s \<Rightarrow> if s = [] then ''unknown'' else s)"

definition toBoolean :: "bool option \<Rightarrow> bool" where
  "toBoolean b = (case b of None \<Rightarrow> False | Some v \<Rightarrow> v)"

definition propertiesReduceFn :: "MemberMap js_object \<Rightarrow> MemberDeclaration \<Rightarrow> MemberMap js_object" where
  "propertiesReduceFn acc p =
     (if \<not> truthy (getProp acc (structName p))
         \<and> (structScope p = Some Public \<or> structScope p = None)
      then setProp acc (structName p)
             \<lparr>title = memberText p,
              memberType = typeOrUnknown (structType p),
              description = firstCommentText (memberJsDocs p),
              isStatic = toBoolean (structIsStatic p)\<rparr>
      else acc)"

definition accessorsReduceFn :: "MemberMap js_object \<Rightarrow> MemberDeclaration \<Rightarrow> MemberMap js_object" where
  "accessorsReduceFn acc g =
     (if \<not> truthy (getProp acc (structName g))
         \<and> (structScope g = Some Public \<or> structScope g = None)
      then setProp acc (structName g)
             \<lparr>title = memberText g,
              memberType = typeOrUnknown (structType g),
              description = firstCommentText (memberJsDocs g),
              isStatic = toBoolean (structIsStatic g)\<rparr>
      else acc)"

definition methodsReduceFn :: "MemberMap js_object \<Rightarrow> MemberDeclaration \<Rightarrow> MemberMap js_object" where
  "methodsReduceFn acc m =
     (if \<not> truthy (getProp acc (structName m))
         \<and> (structScope m = Some Public \<or> structScope m = None)
      then setProp acc (structName m)
             \<lparr>title = memberText m,
              memberType = typeOrUnknown (structType m),
              description = firstCommentText (memberJsDocs m),
              isStatic = toBoolean (structIsStatic m)\<rparr>
      else acc)"

function getPublicProperties :: "ClassDeclaration \<Rightarrow> MemberMap js_object \<Rightarrow> MemberMap js_object" where
  "getPublicProperties c m =
     (let propertiesMap = foldl propertiesReduceFn m (getProperties c)
      in case getBaseClass c of
           Some parentClass \<Rightarrow> getPublicProperties parentClass propertiesMap
         | None \<Rightarrow> propertiesMap)"
  by pat_completeness auto
termination
proof (relation "measure (\<lambda>(c, m). size c)")
  show "wf (measure (\<lambda>(c, m). size c))" by simp
next
  fix c :: ClassDeclaration and m x :: "MemberMap js_object" and parent
  assume "getBaseClass c = Some parent"
  then have "size parent < size c" by (cases c) simp
  then show "((parent, x), (c, m)) \<in> measure (\<lambda>(c, m). size c)" by simp
qed

function getPublicAccessors :: "ClassDeclaration \<Rightarrow> MemberMap js_object \<Rightarrow> MemberMap js_object" where
  "getPublicAccessors c m =
     (let accessorsMap = foldl accessorsReduceFn m (getGetAccessors c)
      in case getBaseClass c of
           Some parentClass \<Rightarrow> getPublicAccessors parentClass accessorsMap
         | None \<Rightarrow> accessorsMap)"
  by pat_completeness auto
termination
proof (relation "measure (\<lambda>(c, m). size c)")
  show "wf (measure (\<lambda>(c, m). size c))" by simp
next
  fix c :: ClassDeclaration and m x :: "MemberMap js_object" and parent
  assume "getBaseClass c = Some parent"
  then have "size parent < size c" by (cases c) simp
  then show "((parent, x), (c, m)) \<in> measure (\<lambda>(c, m). size c)" by simp
qed

function getPublicMethods :: "ClassDeclaration \<Rightarrow> MemberMap js_object \<Rightarrow> MemberMap js_object" where
  "getPublicMethods c m =
     (let methodsMap = foldl methodsReduceFn m (getMethods c)
      in case getBaseClass c of
           Some parentClass \<Rightarrow> getPublicMethods parentClass methodsMap
         | None \<Rightarrow> methodsMap)"
  by pat_completeness auto
termination
proof (relation "measure (\<lambda>(c, m). size c)")
  show "wf (measure (\<lambda>(c, m). size c))" by simp
next
  fix c :: ClassDeclaration and m x :: "MemberMap js_object" and parent
  assume "getBaseClass c = Some parent"
  then have "size parent < size c" by (cases c) simp
  then show "((parent, x), (c, m)) \<in> measure (\<lambda>(c, m). size c)" by simp
qed

text \<open>The three walks are unfolded one class at a time, by hand.\<close>

declare getPublicProperties.simps [simp del]
declare getPublicAccessors.simps [simp del]
declare getPublicMethods.simps [simp del]

definition getTypedClassName :: "ClassDeclaration \<Rightarrow> string" where
  "getTypedClassName c =
     (let className = getName c; typeParameters = getTypeParameters c
      in if length typeParameters \<noteq> 0
         then template className @ ''<'' @ join typeParameters '', '' @ ''>''
         else template className)"

text \<open>The record that \<^verbatim>\<open>setClassData\<close> builds for a class declaration. The maps start
  from the default argument \<^verbatim>\<open>{}\<close>.\<close>

definition classDataOf :: "ClassDeclaration \<Rightarrow> ClassDataMap" where
  "classDataOf classDeclaration =
     \<lparr>classTitle = getTypedClassName classDeclaration,
      classDescription = firstCommentText (getJsDocs classDeclaration),
      constructor =
        \<lparr>ctorTitle = (case getConstructors classDeclaration of [] \<Rightarrow> None | k # ks \<Rightarrow> Some (ctorText k)),
         ctorDescription = (case getConstructors classDeclaration of [] \<Rightarrow> None
                            | k # ks \<Rightarrow> firstCommentText (ctorJsDocs k))\<rparr>,
      properties = getPublicProperties classDeclaration [],
      accessors = getPublicAccessors classDeclaration [],
      methods = getPublicMethods classDeclaration []\<rparr>"

definition setClassData :: "TsFileParser \<Rightarrow> string \<Rightarrow> error + TsFileParser" where
  "setClassData this className =
     (case find (\<lambda>classDeclaration. getName classDeclaration = Some className) (sourceFile this) of
        None \<Rightarrow> Inl ClassNameNotFound
      | Some classDeclaration \<Rightarrow>
          (let key = template (getName classDeclaration)
           in Inr (this\<lparr>classesDataMap :=
                     setProp (classesDataMap this) key (classDataOf classDeclaration)\<rparr>)))"

definition getClassData :: "TsFileParser \<Rightarrow> string \<Rightarrow> (error + ClassDataMap js_property) \<times> TsFileParser" where
  "getClassData this className =
     (if \<not> truthy (getProp (classesDataMap this) className)
      then (case setClassData this className of
              Inl e \<Rightarrow> (Inl e, this)
            | Inr this' \<Rightarrow> (Inr (getProp (classesDataMap this') className), this'))
      else (Inr (getProp (classesDataMap this) className), this))"

section \<open>MdWriter\<close>

text \<open>The writer owns a parser and one Markdown path. \<open>mdFile\<close> is the text stored
  at that path (\<open>None\<close> when it cannot be read), \<open>mdWritable\<close> tells whether a write
  to it succeeds, and \<open>effects\<close> lists the calls to the file system and the console
  in the order they happen.\<close>

datatype Effect = ReadFile | WriteFile string | ConsoleLog string | ConsoleError string

record MdWriter =
  tsFileParser :: TsFileParser
  mdFile :: "string option"
  mdWritable :: bool
  effects :: "Effect list"

definition printH3 :: "string option \<Rightarrow> string" where
  "printH3 label = ''### '' @ template label @ ''\<newline>''"

definition printH4 :: "string option \<Rightarrow> string" where
  "printH4 label = ''#### '' @ template label @ ''\<newline>''"

definition printDescription :: "string option \<Rightarrow> string" where
  "printDescription d =
     (case d of None \<Rightarrow> ''\<newline>'' | Some s \<Rightarrow> if s = [] then ''\<newline>'' else s @ ''\<newline>'')"

definition printListItem :: "string option \<Rightarrow> string option \<Rightarrow> string" where
  "printListItem t d = ''- `'' @ template t @ ''`: '' @ template d @ ''\<newline>''"

text \<open>The \<^verbatim>\<open>map\<close> over the sorted keys followed by \<^verbatim>\<open>join('')\<close>. Reading
  \<^verbatim>\<open>properties[key].title\<close> throws a TypeError when \<^verbatim>\<open>properties[key]\<close> is
  \<^verbatim>\<open>undefined\<close>; an inherited property has no title and no description.\<close>

fun printItems :: "MemberMap js_object \<Rightarrow> string list \<Rightarrow> error + string" where
  "printItems props [] = Inr []"
| "printItems props (key # keys) =
     (case getProp props key of
        Undefined \<Rightarrow> Inl TypeError
      | Inherited k \<Rightarrow>
          (case printItems props keys of
             Inl e \<Rightarrow> Inl e
           | Inr rest \<Rightarrow> Inr (printListItem None None @ rest))
      | Own v \<Rightarrow>
          (case printItems props keys of
             Inl e \<Rightarrow> Inl e
           | Inr rest \<Rightarrow> Inr (printListItem (Some (title v)) (description v) @ rest)))"

definition printMap :: "(string \<Rightarrow> string \<Rightarrow> int) \<Rightarrow> string \<Rightarrow> MemberMap js_object \<Rightarrow> error + string" where
  "printMap localeCompare heading props =
     (let keyList = Object_keys props
      in if length keyList \<noteq> 0
         then (case printItems props (Array_sort localeCompare (Object_keys props)) of
                 Inl e \<Rightarrow> Inl e
               | Inr items \<Rightarrow> Inr (printH4 (Some heading) @ items @ ''\<newline>''))
         else Inr ''\<newline>'')"

text \<open>When the registry lookup hands back an inherited property of the registry object
  instead of a class record, the fields read from it are \<^verbatim>\<open>undefined\<close> and
  \<^verbatim>\<open>Object.keys(undefined)\<close> in the first \<^verbatim>\<open>printMap\<close> throws a TypeError.\<close>

definition getApiClassContent ::
    "(string \<Rightarrow> string \<Rightarrow> int) \<Rightarrow> MdWriter \<Rightarrow> string \<Rightarrow> (error + string) \<times> MdWriter" where
  "getApiClassContent localeCompare this className =
     (case getClassData (tsFileParser this) className of
        (Inl e, parser) \<Rightarrow> (Inl e, this\<lparr>tsFileParser := parser\<rparr>)
      | (Inr Undefined, parser) \<Rightarrow> (Inl TypeError, this\<lparr>tsFileParser := parser\<rparr>)
      | (Inr (Inherited k), parser) \<Rightarrow> (Inl TypeError, this\<lparr>tsFileParser := parser\<rparr>)
      | (Inr (Own classData), parser) \<Rightarrow>
          (case printMap localeCompare ''Properties'' (properties classData) of
             Inl e \<Rightarrow> (Inl e, this\<lparr>tsFileParser := parser\<rparr>)
           | Inr ps \<Rightarrow>
          (case printMap localeCompare ''Accessors'' (accessors classData) of
             Inl e \<Rightarrow> (Inl e, this\<lparr>tsFileParser := parser\<rparr>)
           | Inr as \<Rightarrow>
          (case printMap localeCompare ''Methods'' (methods classData) of
             Inl e \<Rightarrow> (Inl e, this\<lparr>tsFileParser := parser\<rparr>)
           | Inr ms \<Rightarrow>
               (Inr (printH3 (Some (classTitle classData))
                     @ printDescription (classDescription classData)
                     @ printH4 (Some ''Constructor'')
                     @ printListItem (ctorTitle (constructor classData))
                                     (ctorDescription (constructor classData))
                     @ ps @ as @ ms),
                this\<lparr>tsFileParser := parser\<rparr>)))))"

definition readFileAsync :: "MdWriter \<Rightarrow> (error + string) \<times> MdWriter" where
  "readFileAsync this =
     (case mdFile this of
        None \<Rightarrow> (Inl IOError, this\<lparr>effects := effects this @ [ReadFile]\<rparr>)
      | Some content \<Rightarrow> (Inr content, this\<lparr>effects := effects this @ [ReadFile]\<rparr>))"

definition writeFileAsync :: "MdWriter \<Rightarrow> string \<Rightarrow> (error + unit) \<times> MdWriter" where
  "writeFileAsync this content =
     (if mdWritable this
      then (Inr (), this\<lparr>mdFile := Some content, effects := effects this @ [WriteFile content]\<rparr>)
      else (Inl IOError, this\<lparr>effects := effects this @ [WriteFile content]\<rparr>))"

text \<open>The two marker comments, \<^verbatim>\<open>startComment\<close> and \<^verbatim>\<open>endComment\<close> of
  \<^verbatim>\<open>writeApiClassContent\<close>.\<close>

definition startComment :: "string \<Rightarrow> string" where
  "startComment className = ''<!-- START CLASS API: '' @ className @ '' -->''"

definition endComment :: "string \<Rightarrow> string" where
  "endComment className = ''<!-- END CLASS API: '' @ className @ '' -->''"

definition writeApiClassContent ::
    "(string \<Rightarrow> string \<Rightarrow> int) \<Rightarrow> MdWriter \<Rightarrow> string \<Rightarrow> (error + unit) \<times> MdWriter" where
  "writeApiClassContent localeCompare this className =
     (case readFileAsync this of
        (Inl e, this1) \<Rightarrow> (Inl e, this1)
      | (Inr content, this1) \<Rightarrow>
          (let startIndex = indexOf content (startComment className);
               endIndex = indexOf content (endComment className) + int (length (endComment className))
           in if startIndex \<noteq> - 1 \<and> endIndex \<noteq> - 1
              then (case getApiClassContent localeCompare this1 className of
                      (Inl e, this2) \<Rightarrow> (Inl e, this2)
                    | (Inr apiClassContent, this2) \<Rightarrow>
                        (let updatedContent =
                               slice content 0 (startIndex + int (length (startComment className)))
                               @ ''\<newline>''
                               @ apiClassContent
                               @ sliceFrom content (endIndex - int (length (endComment className)))
                         in case writeFileAsync this2 updatedContent of
                              (Inl e, this3) \<Rightarrow> (Inl e, this3)
                            | (Inr u, this3) \<Rightarrow>
                                (Inr (),
                                 this3\<lparr>effects := effects this3 @
                                   [ConsoleLog (''Content for '' @ className @ '' inserted successfully.'')]\<rparr>)))
              else (Inr (),
                    this1\<lparr>effects := effects this1 @
                      [ConsoleError (''Start and/or end comments not found for '' @ className
                                     @ '' in the file.'')]\<rparr>)))"

section \<open>Vocabulary of the properties\<close>

text \<open>The constructors: a parser starts with the classes of the parsed file and an empty
  registry, a writer with a fresh parser, the text stored at its Markdown path, and no
  effect yet.\<close>

definition newTsFileParser :: "ClassDeclaration list \<Rightarrow> TsFileParser" where
  "newTsFileParser classes = \<lparr>sourceFile = classes, classesDataMap = []\<rparr>"

definition newMdWriter :: "ClassDeclaration list \<Rightarrow> string option \<Rightarrow> MdWriter" where
  "newMdWriter classes stored =
     \<lparr>tsFileParser = newTsFileParser classes, mdFile = stored, mdWritable = True, effects = []\<rparr>"

text \<open>The states a parser can be in: \<open>setClassData\<close> is private, so the registry only
  changes through calls of \<open>getClassData\<close>.\<close>

inductive reachable :: "ClassDeclaration list \<Rightarrow> TsFileParser \<Rightarrow> bool"
  for classes :: "ClassDeclaration list" where
  fresh: "reachable classes (newTsFileParser classes)"
| call: "reachable classes this \<Longrightarrow> reachable classes (snd (getClassData this className))"

text \<open>A class followed by its ancestors, nearest first.\<close>

function classChain :: "ClassDeclaration \<Rightarrow> ClassDeclaration list" where
  "classChain c =
     c # (case getBaseClass c of Some parentClass \<Rightarrow> classChain parentClass | None \<Rightarrow> [])"
  by pat_completeness auto
termination
proof (relation "measure size")
  show "wf (measure size)" by simp
next
  fix c parent :: ClassDeclaration
  assume "getBaseClass c = Some parent"
  then have "size parent < size c" by (cases c) simp
  then show "(parent, c) \<in> measure size" by simp
qed

declare classChain.simps [simp del]

text \<open>The three kinds of members, what a class declares of a kind, what the class and its
  ancestors declare of it (the class first), and the map \<open>setClassData\<close> stores for it.\<close>

datatype MemberKind = PropertyKind | AccessorKind | MethodKind

fun declared :: "MemberKind \<Rightarrow> ClassDeclaration \<Rightarrow> MemberDeclaration list" where
  "declared PropertyKind c = getProperties c"
| "declared AccessorKind c = getGetAccessors c"
| "declared MethodKind c = getMethods c"

definition declaredInChain :: "MemberKind \<Rightarrow> ClassDeclaration \<Rightarrow> MemberDeclaration list" where
  "declaredInChain kind c = concat (map (declared kind) (classChain c))"

fun merged :: "MemberKind \<Rightarrow> ClassDeclaration \<Rightarrow> MemberMap js_object" where
  "merged PropertyKind c = getPublicProperties c []"
| "merged AccessorKind c = getPublicAccessors c []"
| "merged MethodKind c = getPublicMethods c []"

fun memberMaps :: "MemberKind \<Rightarrow> ClassDataMap \<Rightarrow> MemberMap js_object" where
  "memberMaps PropertyKind data = properties data"
| "memberMaps AccessorKind data = accessors data"
| "memberMaps MethodKind data = methods data"

text \<open>The scope test of the reducers, the record they build, and the first declaration
  of a name that passes the scope test.\<close>

definition isPublic :: "MemberDeclaration \<Rightarrow> bool" where
  "isPublic d = (structScope d = Some Public \<or> structScope d = None)"

definition memberMapOf :: "MemberDeclaration \<Rightarrow> MemberMap" where
  "memberMapOf d =
     \<lparr>title = memberText d,
      memberType = typeOrUnknown (structType d),
      description = firstCommentText (memberJsDocs d),
      isStatic = toBoolean (structIsStatic d)\<rparr>"

definition firstPublic :: "string \<Rightarrow> MemberDeclaration list \<Rightarrow> MemberDeclaration option" where
  "firstPublic n ds = find (\<lambda>d. structName d = n \<and> isPublic d) ds"

text \<open>The list line \<open>printMap\<close> prints for one entry of a member map.\<close>

definition memberLine :: "string \<times> MemberMap \<Rightarrow> string" where
  "memberLine m = printListItem (Some (title (snd m))) (description (snd m))"

section \<open>Example inputs\<close>

text \<open>A comparator for the examples: shorter names first.\<close>

definition compareLength :: "string \<Rightarrow> string \<Rightarrow> int" where
  "compareLength a b = int (length a) - int (length b)"

text \<open>A class \<^verbatim>\<open>Foo\<close> without type parameters, doc comment, constructor or members.\<close>

definition exampleFoo :: ClassDeclaration where
  "exampleFoo = ClassDeclaration (Some ''Foo'') [] [] [] [] [] [] None"

text \<open>A base class with a member \<^verbatim>\<open>x\<close> of unspecified scope, a subclass that declares
  \<^verbatim>\<open>x\<close> private, and a subclass that declares it public.\<close>

definition exampleBaseX :: MemberDeclaration where
  "exampleBaseX =
     \<lparr>structName = ''x'', structType = Some ''number'', structScope = None,
      structIsStatic = Some False, memberText = ''x: number;'',
      memberJsDocs = [Some ''The x of the base class.'']\<rparr>"

definition exampleBase :: ClassDeclaration where
  "exampleBase = ClassDeclaration (Some ''Base'') [] [] [] [exampleBaseX] [] [] None"

definition examplePrivateX :: MemberDeclaration where
  "examplePrivateX =
     \<lparr>structName = ''x'', structType = None, structScope = Some Private,
      structIsStatic = Some False, memberText = ''private x;'', memberJsDocs = []\<rparr>"

definition examplePrivate :: ClassDeclaration where
  "examplePrivate =
     ClassDeclaration (Some ''Hidden'') [] [] [] [examplePrivateX] [] [] (Some exampleBase)"

definition exampleDerivedX :: MemberDeclaration where
  "exampleDerivedX =
     \<lparr>structName = ''x'', structType = Some ''string'', structScope = Some Public,
      structIsStatic = Some False, memberText = ''public x: string;'', memberJsDocs = []\<rparr>"

definition exampleDerived :: ClassDeclaration where
  "exampleDerived =
     ClassDeclaration (Some ''Derived'') [''T''] [] [] [exampleDerivedX] [] [] (Some exampleBase)"


text \<open>The fragment rendered for \<^verbatim>\<open>Foo\<close>, and a document with a marker pair for it.\<close>

definition exampleFragment :: string where
  "exampleFragment =
     ''### Foo\<newline>\<newline>#### Constructor\<newline>- `undefined`: undefined\<newline>\<newline>\<newline>\<newline>''"

definition exampleDocument :: string where
  "exampleDocument =
     ''# API\<newline><!-- START CLASS API: Foo -->\<newline>old\<newline><!-- END CLASS API: Foo -->\<newline>footer''"

section \<open>Dictionary lookups\<close>

lemma map_of_setProp: "map_of (setProp obj k v) = (map_of obj)(k \<mapsto> v)"
  by (induction obj k v rule: setProp.induct) (auto simp: fun_eq_iff)

lemma getProp_setProp_same: "getProp (setProp obj k v) k = Own v"
  by (simp add: getProp_def map_of_setProp)

lemma truthy_Own: "truthy (Own v)"
  by (simp add: truthy_def)

lemma truthy_getProp_iff:
  "truthy (getProp obj k) \<longleftrightarrow> map_of obj k \<noteq> None \<or> k \<in> set Object_prototype_keys"
  by (auto simp: truthy_def getProp_def split: option.splits)

lemma keys_setProp:
  "map fst (setProp obj k v) = (if k \<in> set (map fst obj) then map fst obj else map fst obj @ [k])"
  by (induction obj k v rule: setProp.induct) auto

lemma distinct_setProp: "distinct (map fst obj) \<Longrightarrow> distinct (map fst (setProp obj k v))"
  by (simp add: keys_setProp)


lemma set_Object_keys: "set (Object_keys obj) = fst ` set obj"
  unfolding Object_keys_def by auto


lemma single_entry:
  assumes "distinct (map fst obj)" and "map_of obj n = Some v"
  shows "filter (\<lambda>entry. fst entry = n) obj = [(n, v)]"
  using assms
proof (induction obj)
  case Nil
  then show ?case by simp
next
  case (Cons p obj)
  show ?case
  proof (cases "fst p = n")
    case True
    with Cons.prems have "p = (n, v)" by (cases p) simp
    moreover from True Cons.prems have "filter (\<lambda>entry. fst entry = n) obj = []"
      by (auto simp: filter_empty_conv image_iff)
    ultimately show ?thesis by simp
  next
    case False
    with Cons show ?thesis by (cases p) auto
  qed
qed

section \<open>Sorting the keys\<close>

lemma mset_insertBy: "mset (insertBy cmp x ys) = add_mset x (mset ys)"
  by (induction ys) auto

lemma mset_Array_sort: "mset (Array_sort cmp xs) = mset xs"
  by (induction xs) (auto simp: Array_sort_def mset_insertBy)


lemma set_Array_sort: "set (Array_sort cmp xs) = set xs"
  using mset_Array_sort[of cmp xs] by (metis set_mset_mset)



section \<open>Rendering\<close>

text \<open>
  C2. A member without a doc comment has the description \<^verbatim>\<open>undefined\<close>, and the
  template of \<open>printListItem\<close> interpolates it: the line for the title \<^verbatim>\<open>x: T\<close> ends
  with the word \<^verbatim>\<open>undefined\<close> after the separator, not with the separator, and so
  does the line \<open>printMap\<close> prints for a property \<^verbatim>\<open>x\<close> with that title and no
  description.
\<close>

theorem printListItem_absent_description:
  "printListItem (Some ''x: T'') None = ''- `x: T`: undefined\<newline>''
   \<and> printMap compareLength ''Properties''
         [(''x'', \<lparr>title = ''x: T'', memberType = ''T'', description = None, isStatic = False\<rparr>)]
       = Inr ''#### Properties\<newline>- `x: T`: undefined\<newline>\<newline>''"
proof -
  have keys: "Object_keys [(''x'', \<lparr>title = ''x: T'', memberType = ''T'', description = None,
                                    isStatic = False\<rparr>)] = [''x'']"
    by (simp add: Object_keys_def isArrayIndex_def isDigit_def)
  show ?thesis
    unfolding printMap_def keys
    by (simp add: printListItem_def template_def Array_sort_def getProp_def printH4_def)
qed

lemma printItems_own:
  assumes "set keys \<subseteq> fst ` set props"
  shows "printItems props keys =
           Inr (concat (map (\<lambda>k. memberLine (k, the (map_of props k))) keys))"
  using assms
proof (induction keys)
  case Nil
  then show ?case by simp
next
  case (Cons k keys)
  then obtain v where "map_of props k = Some v"
    by (metis insert_subset list.simps(15) map_of_eq_None_iff not_Some_eq)
  with Cons show ?case
    by (simp add: getProp_def memberLine_def)
qed

lemma printMap_total: "\<exists>s. printMap cmp heading props = Inr s"
proof -
  have "set (Array_sort cmp (Object_keys props)) \<subseteq> fst ` set props"
    by (simp add: set_Array_sort set_Object_keys)
  then have "\<exists>s. printItems props (Array_sort cmp (Object_keys props)) = Inr s"
    by (simp add: printItems_own)
  then show ?thesis
    by (auto simp: printMap_def Let_def)
qed

lemma printMap_empty: "printMap cmp heading [] = Inr ''\<newline>''"
  by (simp add: printMap_def Object_keys_def)




section \<open>The registry of class data\<close>

lemma find_getName: "find (\<lambda>c. getName c = Some n) cs = Some c \<Longrightarrow> getName c = Some n"
  by (induction cs) (auto split: if_splits)

lemma getClassData_found:
  assumes "find (\<lambda>c. getName c = Some className) (sourceFile this) = Some c"
    and "\<not> truthy (getProp (classesDataMap this) className)"
  shows "getClassData this className =
           (Inr (Own (classDataOf c)),
            this\<lparr>classesDataMap := setProp (classesDataMap this) className (classDataOf c)\<rparr>)"
  using assms find_getName[OF assms(1)]
  by (simp add: getClassData_def setClassData_def template_def getProp_setProp_same)

lemma getClassData_cached:
  assumes "truthy (getProp (classesDataMap this) className)"
  shows "getClassData this className = (Inr (getProp (classesDataMap this) className), this)"
  using assms by (simp add: getClassData_def)

lemma getClassData_missing:
  assumes "find (\<lambda>c. getName c = Some className) (sourceFile this) = None"
    and "\<not> truthy (getProp (classesDataMap this) className)"
  shows "getClassData this className = (Inl ClassNameNotFound, this)"
  using assms by (simp add: getClassData_def setClassData_def)

text \<open>
  C4. When a class of the requested name is declared in the source, \<open>getClassData\<close>
  returns a value and does not throw; that value is what the registry holds under the
  name after the call; a second call returns the same value and leaves the parser,
  registry included, as the first call left it; and the second call does not look at the
  source: it gives the same answer when the source has been replaced by any other list
  of classes in between. For every name that is not one every object inherits, the value
  is a class record that the registry stores under the name as an own entry after the
  first call: the record that was already stored, or else the record newly built from
  the declared class. For the inherited names nothing is resolved or stored: the parser
  stays as it was and the value is the entry already stored, or else the inherited
  property.
\<close>

theorem getClassData_memoized:
  assumes "find (\<lambda>c. getName c = Some className) (sourceFile this) = Some c"
  shows "\<exists>v. fst (getClassData this className) = Inr v
           \<and> v = getProp (classesDataMap (snd (getClassData this className))) className
           \<and> getClassData (snd (getClassData this className)) className
               = (Inr v, snd (getClassData this className))
           \<and> getClassData ((snd (getClassData this className))\<lparr>sourceFile := changed\<rparr>) className
               = (Inr v, (snd (getClassData this className))\<lparr>sourceFile := changed\<rparr>)
           \<and> (if className \<in> set Object_prototype_keys
                then snd (getClassData this className) = this
                     \<and> v = (case map_of (classesDataMap this) className of
                               None \<Rightarrow> Inherited className
                             | Some stored \<Rightarrow> Own stored)
                else v = Own (case map_of (classesDataMap this) className of
                                None \<Rightarrow> classDataOf c
                              | Some stored \<Rightarrow> stored)
                     \<and> map_of (classesDataMap (snd (getClassData this className))) className
                         = Some (case map_of (classesDataMap this) className of
                                   None \<Rightarrow> classDataOf c
                                 | Some stored \<Rightarrow> stored)
                     \<and> snd (getClassData this className) =
                         (case map_of (classesDataMap this) className of
                            None \<Rightarrow> this\<lparr>classesDataMap :=
                                      setProp (classesDataMap this) className (classDataOf c)\<rparr>
                          | Some stored \<Rightarrow> this))"
proof (cases "truthy (getProp (classesDataMap this) className)")
  case True
  then have first: "getClassData this className = (Inr (getProp (classesDataMap this) className), this)"
    by (rule getClassData_cached)
  have again: "getClassData (this\<lparr>sourceFile := changed\<rparr>) className
                 = (Inr (getProp (classesDataMap this) className), this\<lparr>sourceFile := changed\<rparr>)"
    using getClassData_cached[of "this\<lparr>sourceFile := changed\<rparr>" className] True by simp
  have shape: "if className \<in> set Object_prototype_keys
               then getProp (classesDataMap this) className =
                      (case map_of (classesDataMap this) className of
                         None \<Rightarrow> Inherited className
                       | Some stored \<Rightarrow> Own stored)
               else getProp (classesDataMap this) className =
                      Own (case map_of (classesDataMap this) className of
                             None \<Rightarrow> classDataOf c
                           | Some stored \<Rightarrow> stored)
                    \<and> map_of (classesDataMap this) className =
                        Some (case map_of (classesDataMap this) className of
                                None \<Rightarrow> classDataOf c
                              | Some stored \<Rightarrow> stored)
                    \<and> this = (case map_of (classesDataMap this) className of
                                None \<Rightarrow> this\<lparr>classesDataMap :=
                                          setProp (classesDataMap this) className (classDataOf c)\<rparr>
                              | Some stored \<Rightarrow> this)"
    using True by (auto simp: truthy_def getProp_def split: option.splits if_splits)
  show ?thesis
    unfolding first using first again shape by (simp split: if_splits)
next
  case False
  then have absent: "map_of (classesDataMap this) className = None"
    and name: "className \<notin> set Object_prototype_keys"
    by (simp_all add: truthy_getProp_iff)
  let ?this' = "this\<lparr>classesDataMap := setProp (classesDataMap this) className (classDataOf c)\<rparr>"
  have first: "getClassData this className = (Inr (Own (classDataOf c)), ?this')"
    using assms False by (rule getClassData_found)
  have stored: "getProp (classesDataMap ?this') className = Own (classDataOf c)"
    by (simp add: getProp_setProp_same)
  have entry: "map_of (classesDataMap ?this') className = Some (classDataOf c)"
    by (simp add: map_of_setProp)
  have again: "getClassData ?this' className = (Inr (Own (classDataOf c)), ?this')"
    using getClassData_cached[of ?this' className] stored by (simp add: truthy_Own)
  have again': "getClassData (?this'\<lparr>sourceFile := changed\<rparr>) className
                  = (Inr (Own (classDataOf c)), ?this'\<lparr>sourceFile := changed\<rparr>)"
    using getClassData_cached[of "?this'\<lparr>sourceFile := changed\<rparr>" className] stored
    by (simp add: truthy_Own)
  show ?thesis
    unfolding first using stored entry again again' absent name by simp
qed

theorem getClassData_memoized_witness:
  "fst (getClassData (newTsFileParser [exampleFoo]) ''Foo'') = Inr (Own (classDataOf exampleFoo))
   \<and> map_of (classesDataMap (snd (getClassData (newTsFileParser [exampleFoo]) ''Foo''))) ''Foo''
       = Some (classDataOf exampleFoo)
   \<and> getClassData (snd (getClassData (newTsFileParser [exampleFoo]) ''Foo'')) ''Foo''
       = (Inr (Own (classDataOf exampleFoo)),
          snd (getClassData (newTsFileParser [exampleFoo]) ''Foo''))
   \<and> getClassData ((snd (getClassData (newTsFileParser [exampleFoo]) ''Foo''))\<lparr>sourceFile := []\<rparr>) ''Foo''
       = (Inr (Own (classDataOf exampleFoo)),
          (snd (getClassData (newTsFileParser [exampleFoo]) ''Foo''))\<lparr>sourceFile := []\<rparr>)"
proof -
  have declared: "find (\<lambda>c. getName c = Some ''Foo'') (sourceFile (newTsFileParser [exampleFoo]))
                    = Some exampleFoo"
    by (simp add: newTsFileParser_def exampleFoo_def)
  have name: "''Foo'' \<notin> set Object_prototype_keys"
    by (simp add: Object_prototype_keys_def)
  have empty: "map_of (classesDataMap (newTsFileParser [exampleFoo])) ''Foo'' = None"
    by (simp add: newTsFileParser_def)
  from getClassData_memoized[OF declared, of "[]"] obtain v where
    v: "fst (getClassData (newTsFileParser [exampleFoo]) ''Foo'') = Inr v"
       "getClassData (snd (getClassData (newTsFileParser [exampleFoo]) ''Foo'')) ''Foo''
          = (Inr v, snd (getClassData (newTsFileParser [exampleFoo]) ''Foo''))"
       "getClassData ((snd (getClassData (newTsFileParser [exampleFoo]) ''Foo''))\<lparr>sourceFile := []\<rparr>) ''Foo''
          = (Inr v, (snd (getClassData (newTsFileParser [exampleFoo]) ''Foo''))\<lparr>sourceFile := []\<rparr>)"
    and split: "if ''Foo'' \<in> set Object_prototype_keys
           then snd (getClassData (newTsFileParser [exampleFoo]) ''Foo'') = newTsFileParser [exampleFoo]
                \<and> v = (case map_of (classesDataMap (newTsFileParser [exampleFoo])) ''Foo'' of
                          None \<Rightarrow> Inherited ''Foo''
                        | Some stored \<Rightarrow> Own stored)
           else v = Own (case map_of (classesDataMap (newTsFileParser [exampleFoo])) ''Foo'' of
                           None \<Rightarrow> classDataOf exampleFoo
                         | Some stored \<Rightarrow> stored)
                \<and> map_of (classesDataMap (snd (getClassData (newTsFileParser [exampleFoo]) ''Foo''))) ''Foo''
                    = Some (case map_of (classesDataMap (newTsFileParser [exampleFoo])) ''Foo'' of
                              None \<Rightarrow> classDataOf exampleFoo
                            | Some stored \<Rightarrow> stored)
                \<and> snd (getClassData (newTsFileParser [exampleFoo]) ''Foo'') =
                    (case map_of (classesDataMap (newTsFileParser [exampleFoo])) ''Foo'' of
                       None \<Rightarrow> (newTsFileParser [exampleFoo])\<lparr>classesDataMap :=
                                 setProp (classesDataMap (newTsFileParser [exampleFoo])) ''Foo''
                                   (classDataOf exampleFoo)\<rparr>
                     | Some stored \<Rightarrow> newTsFileParser [exampleFoo])"
    by blast
  from split name have own: "v = Own (classDataOf exampleFoo)"
    and entry: "map_of (classesDataMap (snd (getClassData (newTsFileParser [exampleFoo]) ''Foo''))) ''Foo''
                  = Some (classDataOf exampleFoo)"
    unfolding empty by (simp_all add: map_of_setProp)
  from v entry show ?thesis
    unfolding own by simp
qed

text \<open>
  C5. The registry is a plain object, and the test \<^verbatim>\<open>!this.classesDataMap[className]\<close>
  also sees what that object inherits. For the name \<^verbatim>\<open>toString\<close>, which no class of
  the (here empty) source declares, \<open>getClassData\<close> does not throw: it returns the
  inherited property of the registry object and never calls \<open>setClassData\<close>. Rendering
  the fragment for that name then throws a TypeError, not the error of a missing class.
\<close>

theorem getClassData_inherited_name:
  "find (\<lambda>c. getName c = Some ''toString'') (sourceFile (newTsFileParser [])) = None
   \<and> getClassData (newTsFileParser []) ''toString''
       = (Inr (Inherited ''toString''), newTsFileParser [])
   \<and> fst (getApiClassContent compareLength (newMdWriter [] None) ''toString'') = Inl TypeError"
  by (simp add: getClassData_def getProp_def truthy_def Object_prototype_keys_def
      newTsFileParser_def getApiClassContent_def newMdWriter_def)

subsection \<open>Reachable registries\<close>

lemma getClassData_state:
  "snd (getClassData this className) = this
   \<or> (\<exists>c. find (\<lambda>c. getName c = Some className) (sourceFile this) = Some c
          \<and> \<not> truthy (getProp (classesDataMap this) className)
          \<and> snd (getClassData this className) =
              this\<lparr>classesDataMap := setProp (classesDataMap this) className (classDataOf c)\<rparr>)"
proof (cases "truthy (getProp (classesDataMap this) className)")
  case True
  then show ?thesis by (simp add: getClassData_cached)
next
  case False
  show ?thesis
  proof (cases "find (\<lambda>c. getName c = Some className) (sourceFile this)")
    case None
    with False show ?thesis by (simp add: getClassData_missing)
  next
    case (Some c)
    with False show ?thesis by (simp add: getClassData_found)
  qed
qed

lemma reachable_sourceFile: "reachable classes this \<Longrightarrow> sourceFile this = classes"
proof (induction rule: reachable.induct)
  case fresh
  show ?case by (simp add: newTsFileParser_def)
next
  case (call this className)
  then show ?case
    using getClassData_state[of this className] by auto
qed

lemma reachable_entries:
  "reachable classes this \<Longrightarrow> map_of (classesDataMap this) k = Some d \<Longrightarrow>
     k \<notin> set Object_prototype_keys
     \<and> (\<exists>c. find (\<lambda>c. getName c = Some k) classes = Some c \<and> d = classDataOf c)"
proof (induction arbitrary: k d rule: reachable.induct)
  case fresh
  then show ?case by (simp add: newTsFileParser_def)
next
  case (call this className)
  from getClassData_state[of this className] show ?case
  proof
    assume "snd (getClassData this className) = this"
    with call show ?thesis by simp
  next
    assume "\<exists>c. find (\<lambda>c. getName c = Some className) (sourceFile this) = Some c
          \<and> \<not> truthy (getProp (classesDataMap this) className)
          \<and> snd (getClassData this className) =
              this\<lparr>classesDataMap := setProp (classesDataMap this) className (classDataOf c)\<rparr>"
    then obtain c where c: "find (\<lambda>c. getName c = Some className) (sourceFile this) = Some c"
      and new: "\<not> truthy (getProp (classesDataMap this) className)"
      and s: "snd (getClassData this className) =
              this\<lparr>classesDataMap := setProp (classesDataMap this) className (classDataOf c)\<rparr>"
      by blast
    show ?thesis
    proof (cases "k = className")
      case True
      with call.prems s have "d = classDataOf c" by (simp add: map_of_setProp)
      with c True new reachable_sourceFile[OF call.hyps] show ?thesis
        by (simp add: truthy_getProp_iff)
    next
      case False
      with call.prems s have "map_of (classesDataMap this) k = Some d"
        by (simp add: map_of_setProp)
      then show ?thesis by (rule call.IH)
    qed
  qed
qed

lemma reachable_getClassData_declared:
  assumes "reachable classes this"
    and "find (\<lambda>c. getName c = Some className) classes = Some c"
  shows "fst (getClassData this className) =
           (if className \<in> set Object_prototype_keys then Inr (Inherited className)
            else Inr (Own (classDataOf c)))"
proof (cases "map_of (classesDataMap this) className")
  case None
  show ?thesis
  proof (cases "className \<in> set Object_prototype_keys")
    case True
    with None show ?thesis
      by (simp add: getClassData_cached truthy_getProp_iff) (simp add: getProp_def)
  next
    case False
    with None have "\<not> truthy (getProp (classesDataMap this) className)"
      by (simp add: truthy_getProp_iff)
    with assms False show ?thesis
      using getClassData_found[of className this c] reachable_sourceFile[OF assms(1)] by simp
  qed
next
  case (Some d)
  with assms have "d = classDataOf c" and "className \<notin> set Object_prototype_keys"
    using reachable_entries[OF assms(1) Some] by auto
  with Some show ?thesis
    by (simp add: getClassData_cached truthy_getProp_iff) (simp add: getProp_def)
qed

lemma reachable_getClassData_undeclared:
  assumes "reachable classes this"
    and "find (\<lambda>c. getName c = Some className) classes = None"
  shows "getClassData this className =
           (if className \<in> set Object_prototype_keys then Inr (Inherited className)
            else Inl ClassNameNotFound, this)"
proof -
  have none: "map_of (classesDataMap this) className = None"
    using reachable_entries[OF assms(1), of className] assms(2)
    by (cases "map_of (classesDataMap this) className") auto
  show ?thesis
  proof (cases "className \<in> set Object_prototype_keys")
    case True
    with none show ?thesis
      by (simp add: getClassData_cached truthy_getProp_iff) (simp add: getProp_def)
  next
    case False
    with none have "\<not> truthy (getProp (classesDataMap this) className)"
      by (simp add: truthy_getProp_iff)
    with assms False show ?thesis
      using getClassData_missing[of className this] reachable_sourceFile[OF assms(1)] by simp
  qed
qed

text \<open>
  C9. In every state the parser can reach, asking for a declared class that has no
  constructor does not throw. The value returned is the class record, whose constructor
  title and constructor description are both absent; only for a class named like a
  property every object inherits is it that inherited property, which has no
  constructor summary either.
\<close>

theorem no_constructor_is_valid:
  assumes "reachable classes this"
    and "find (\<lambda>c. getName c = Some className) classes = Some c"
    and "getConstructors c = []"
  shows "if className \<in> set Object_prototype_keys
         then fst (getClassData this className) = Inr (Inherited className)
         else (\<exists>d. fst (getClassData this className) = Inr (Own d)
                 \<and> ctorTitle (constructor d) = None
                 \<and> ctorDescription (constructor d) = None)"
  using reachable_getClassData_declared[OF assms(1,2)] assms(3)
  by (simp add: classDataOf_def)

theorem no_constructor_is_valid_witness:
  "\<exists>d. fst (getClassData (newTsFileParser [exampleFoo]) ''Foo'') = Inr (Own d)
      \<and> ctorTitle (constructor d) = None
      \<and> ctorDescription (constructor d) = None"
proof -
  have state: "reachable [exampleFoo] (newTsFileParser [exampleFoo])"
    by (rule reachable.fresh)
  have declared: "find (\<lambda>c. getName c = Some ''Foo'') [exampleFoo] = Some exampleFoo"
    by (simp add: exampleFoo_def)
  have bare: "getConstructors exampleFoo = []"
    by (simp add: exampleFoo_def)
  have name: "''Foo'' \<notin> set Object_prototype_keys"
    by (simp add: Object_prototype_keys_def)
  from no_constructor_is_valid[OF state declared bare] name show ?thesis
    by (simp only: if_False)
qed

section \<open>The rendered fragment\<close>

lemma getApiClassContent_Own:
  assumes "getClassData (tsFileParser this) className = (Inr (Own d), p)"
    and "printMap cmp ''Properties'' (properties d) = Inr ps"
    and "printMap cmp ''Accessors'' (accessors d) = Inr as"
    and "printMap cmp ''Methods'' (methods d) = Inr ms"
  shows "getApiClassContent cmp this className =
           (Inr (printH3 (Some (classTitle d)) @ printDescription (classDescription d)
                 @ printH4 (Some ''Constructor'')
                 @ printListItem (ctorTitle (constructor d)) (ctorDescription (constructor d))
                 @ ps @ as @ ms),
            this\<lparr>tsFileParser := p\<rparr>)"
  using assms by (simp add: getApiClassContent_def)

lemma getApiClassContent_Own_ex:
  assumes "fst (getClassData (tsFileParser this) className) = Inr (Own d)"
  shows "\<exists>rest. fst (getApiClassContent cmp this className) =
            Inr (printH3 (Some (classTitle d)) @ printDescription (classDescription d)
                 @ printH4 (Some ''Constructor'')
                 @ printListItem (ctorTitle (constructor d)) (ctorDescription (constructor d))
                 @ rest)"
proof -
  obtain ps where ps: "printMap cmp ''Properties'' (properties d) = Inr ps"
    using printMap_total by blast
  obtain as where as: "printMap cmp ''Accessors'' (accessors d) = Inr as"
    using printMap_total by blast
  obtain ms where ms: "printMap cmp ''Methods'' (methods d) = Inr ms"
    using printMap_total by blast
  obtain p where "getClassData (tsFileParser this) className = (Inr (Own d), p)"
    using assms by (cases "getClassData (tsFileParser this) className") simp
  from getApiClassContent_Own[OF this ps as ms] show ?thesis
    by simp
qed

lemma getApiClassContent_Inherited:
  assumes "fst (getClassData (tsFileParser this) className) = Inr (Inherited k)"
  shows "fst (getApiClassContent cmp this className) = Inl TypeError"
proof -
  obtain p where "getClassData (tsFileParser this) className = (Inr (Inherited k), p)"
    using assms by (cases "getClassData (tsFileParser this) className") simp
  then show ?thesis
    by (simp add: getApiClassContent_def)
qed

lemma getApiClassContent_throws:
  assumes "fst (getClassData (tsFileParser this) className) = Inl e"
  shows "fst (getApiClassContent cmp this className) = Inl e"
proof -
  obtain p where "getClassData (tsFileParser this) className = (Inl e, p)"
    using assms by (cases "getClassData (tsFileParser this) className") simp
  then show ?thesis
    by (simp add: getApiClassContent_def)
qed

lemma getApiClassContent_frame:
  "getApiClassContent cmp (this\<lparr>effects := e\<rparr>) className =
     (fst (getApiClassContent cmp this className),
      (snd (getApiClassContent cmp this className))\<lparr>effects := e\<rparr>)"
  by (simp add: getApiClassContent_def split: prod.splits sum.splits js_property.splits)

lemma getApiClassContent_file:
  "mdFile (snd (getApiClassContent cmp this className)) = mdFile this
   \<and> mdWritable (snd (getApiClassContent cmp this className)) = mdWritable this
   \<and> effects (snd (getApiClassContent cmp this className)) = effects this"
  by (simp add: getApiClassContent_def split: prod.splits sum.splits js_property.splits)

text \<open>
  C10. In every state the parser can reach, the fragment rendered for a declared class
  without a constructor contains the heading line \<^verbatim>\<open>#### Constructor\<close> followed by the
  line \<^verbatim>\<open>- `undefined`: undefined\<close>. A fragment is rendered unless the class is named
  like a property every object inherits; then the call throws a TypeError instead.
\<close>

theorem no_constructor_renders_undefined:
  assumes "reachable classes (tsFileParser this)"
    and "find (\<lambda>c. getName c = Some className) classes = Some c"
    and "getConstructors c = []"
  shows "if className \<in> set Object_prototype_keys
         then fst (getApiClassContent localeCompare this className) = Inl TypeError
         else (\<exists>before after.
                 fst (getApiClassContent localeCompare this className) =
                   Inr (before @ ''#### Constructor\<newline>- `undefined`: undefined\<newline>'' @ after))"
proof (cases "className \<in> set Object_prototype_keys")
  case True
  then have "fst (getClassData (tsFileParser this) className) = Inr (Inherited className)"
    using reachable_getClassData_declared[OF assms(1,2)] by simp
  from getApiClassContent_Inherited[OF this] True show ?thesis by simp
next
  case False
  then have own: "fst (getClassData (tsFileParser this) className) = Inr (Own (classDataOf c))"
    using reachable_getClassData_declared[OF assms(1,2)] by simp
  have ctor: "printH4 (Some ''Constructor'')
                @ printListItem (ctorTitle (constructor (classDataOf c)))
                                (ctorDescription (constructor (classDataOf c)))
              = ''#### Constructor\<newline>- `undefined`: undefined\<newline>''"
    using assms(3) by (simp add: classDataOf_def printH4_def printListItem_def template_def)
  from getApiClassContent_Own_ex[OF own, of localeCompare]
  obtain rest where
    "fst (getApiClassContent localeCompare this className) =
       Inr ((printH3 (Some (classTitle (classDataOf c))) @ printDescription (classDescription (classDataOf c)))
            @ (printH4 (Some ''Constructor'')
                @ printListItem (ctorTitle (constructor (classDataOf c)))
                                (ctorDescription (constructor (classDataOf c))))
            @ rest)"
    by auto
  then have "\<exists>before after.
                 fst (getApiClassContent localeCompare this className) =
                   Inr (before @ ''#### Constructor\<newline>- `undefined`: undefined\<newline>'' @ after)"
    unfolding ctor by blast
  with False show ?thesis by simp
qed

theorem no_constructor_renders_undefined_witness:
  "\<exists>before after.
     fst (getApiClassContent compareLength (newMdWriter [exampleFoo] None) ''Foo'') =
       Inr (before @ ''#### Constructor\<newline>- `undefined`: undefined\<newline>'' @ after)"
proof -
  have "reachable [exampleFoo] (newTsFileParser [exampleFoo])"
    by (rule reachable.fresh)
  then have state: "reachable [exampleFoo] (tsFileParser (newMdWriter [exampleFoo] None))"
    by (simp add: newMdWriter_def)
  have declared: "find (\<lambda>c. getName c = Some ''Foo'') [exampleFoo] = Some exampleFoo"
    by (simp add: exampleFoo_def)
  have bare: "getConstructors exampleFoo = []"
    by (simp add: exampleFoo_def)
  have name: "''Foo'' \<notin> set Object_prototype_keys"
    by (simp add: Object_prototype_keys_def)
  from no_constructor_renders_undefined[OF state declared bare, of compareLength] name
  show ?thesis
    by (simp only: if_False)
qed

section \<open>The member maps\<close>

lemma classChain_root: "getBaseClass c = None \<Longrightarrow> classChain c = [c]"
  by (subst classChain.simps) simp

lemma classChain_child:
  "getBaseClass c = Some parentClass \<Longrightarrow> classChain c = c # classChain parentClass"
  by (subst classChain.simps) simp

lemma declared_eq:
  "declared PropertyKind = getProperties"
  "declared AccessorKind = getGetAccessors"
  "declared MethodKind = getMethods"
  by (simp_all add: fun_eq_iff)

lemma declaredInChain_unfold:
  "declaredInChain kind c =
     declared kind c
     @ (case getBaseClass c of Some parentClass \<Rightarrow> declaredInChain kind parentClass | None \<Rightarrow> [])"
  unfolding declaredInChain_def
  by (subst classChain.simps) (simp split: option.splits)

lemma propertiesReduceFn_eq:
  "propertiesReduceFn acc p =
     (if \<not> truthy (getProp acc (structName p)) \<and> isPublic p
      then setProp acc (structName p) (memberMapOf p) else acc)"
  by (simp add: propertiesReduceFn_def isPublic_def memberMapOf_def)

lemma accessorsReduceFn_eq: "accessorsReduceFn = propertiesReduceFn"
  by (simp add: fun_eq_iff accessorsReduceFn_def propertiesReduceFn_def)

lemma methodsReduceFn_eq: "methodsReduceFn = propertiesReduceFn"
  by (simp add: fun_eq_iff methodsReduceFn_def propertiesReduceFn_def)

lemma getPublicProperties_fold:
  "getPublicProperties c m = foldl propertiesReduceFn m (concat (map getProperties (classChain c)))"
proof (induction c m rule: getPublicProperties.induct)
  case (1 c m)
  show ?case
  proof (cases "getBaseClass c")
    case None
    then show ?thesis
      by (subst getPublicProperties.simps, subst classChain.simps) simp
  next
    case (Some parent)
    with "1.IH"[OF refl Some] show ?thesis
      by (subst getPublicProperties.simps, subst classChain.simps) simp
  qed
qed

lemma getPublicAccessors_fold:
  "getPublicAccessors c m = foldl propertiesReduceFn m (concat (map getGetAccessors (classChain c)))"
proof (induction c m rule: getPublicAccessors.induct)
  case (1 c m)
  show ?case
  proof (cases "getBaseClass c")
    case None
    then show ?thesis
      by (subst getPublicAccessors.simps, subst classChain.simps) (simp add: accessorsReduceFn_eq)
  next
    case (Some parent)
    with "1.IH"[OF refl Some] show ?thesis
      by (subst getPublicAccessors.simps, subst classChain.simps) (simp add: accessorsReduceFn_eq)
  qed
qed

lemma getPublicMethods_fold:
  "getPublicMethods c m = foldl propertiesReduceFn m (concat (map getMethods (classChain c)))"
proof (induction c m rule: getPublicMethods.induct)
  case (1 c m)
  show ?case
  proof (cases "getBaseClass c")
    case None
    then show ?thesis
      by (subst getPublicMethods.simps, subst classChain.simps) (simp add: methodsReduceFn_eq)
  next
    case (Some parent)
    with "1.IH"[OF refl Some] show ?thesis
      by (subst getPublicMethods.simps, subst classChain.simps) (simp add: methodsReduceFn_eq)
  qed
qed

lemma merged_fold: "merged kind c = foldl propertiesReduceFn [] (declaredInChain kind c)"
  by (cases kind)
     (simp_all add: declaredInChain_def getPublicProperties_fold getPublicAccessors_fold
        getPublicMethods_fold declared_eq)

text \<open>What a run of the reducer over a list of declarations leaves under a name: an entry
  that was there stays; otherwise the first declaration of the name that passes the scope
  test is recorded, unless the name is one every object inherits.\<close>

lemma fold_lookup:
  "map_of (foldl propertiesReduceFn acc ds) n =
     (case map_of acc n of
        Some v \<Rightarrow> Some v
      | None \<Rightarrow> if n \<in> set Object_prototype_keys then None
                else map_option memberMapOf (firstPublic n ds))"
proof (induction ds arbitrary: acc)
  case Nil
  then show ?case by (simp add: firstPublic_def split: option.splits)
next
  case (Cons d ds)
  show ?case
  proof (cases "\<not> truthy (getProp acc (structName d)) \<and> isPublic d")
    case True
    then have step: "propertiesReduceFn acc d = setProp acc (structName d) (memberMapOf d)"
      by (simp add: propertiesReduceFn_eq)
    from True have absent: "map_of acc (structName d) = None"
      and notproto: "structName d \<notin> set Object_prototype_keys"
      by (auto simp: truthy_getProp_iff)
    show ?thesis
      using True absent notproto
      by (auto simp: Cons.IH step map_of_setProp firstPublic_def split: option.splits)
  next
    case False
    then have step: "propertiesReduceFn acc d = acc"
      unfolding propertiesReduceFn_eq by (simp only: if_False)
    from False show ?thesis
      by (auto simp: Cons.IH step firstPublic_def truthy_getProp_iff split: option.splits)
  qed
qed

lemma fold_distinct:
  "distinct (map fst acc) \<Longrightarrow> distinct (map fst (foldl propertiesReduceFn acc ds))"
proof (induction ds arbitrary: acc)
  case Nil
  then show ?case by simp
next
  case (Cons d ds)
  have "distinct (map fst (propertiesReduceFn acc d))"
    using Cons.prems by (simp add: propertiesReduceFn_eq distinct_setProp)
  then show ?case by (simp add: Cons.IH)
qed

lemma merged_lookup:
  "map_of (merged kind c) n =
     (if n \<in> set Object_prototype_keys then None
      else map_option memberMapOf (firstPublic n (declaredInChain kind c)))"
  by (simp add: merged_fold fold_lookup)

lemma merged_distinct: "distinct (map fst (merged kind c))"
  by (simp add: merged_fold fold_distinct)

lemma firstPublic_append:
  "firstPublic n (xs @ ys) = (case firstPublic n xs of Some d \<Rightarrow> Some d | None \<Rightarrow> firstPublic n ys)"
  by (induction xs) (auto simp: firstPublic_def)

lemma merged_entry_public:
  assumes "(n, v) \<in> set (merged kind c)"
  shows "\<exists>d\<in>set (declaredInChain kind c). structName d = n \<and> isPublic d \<and> v = memberMapOf d"
proof -
  from assms merged_distinct[of kind c] have "map_of (merged kind c) n = Some v"
    by simp
  then have "map_option memberMapOf (firstPublic n (declaredInChain kind c)) = Some v"
    by (simp add: merged_lookup split: if_splits)
  then obtain d where "firstPublic n (declaredInChain kind c) = Some d" and "v = memberMapOf d"
    by auto
  then show ?thesis
    unfolding firstPublic_def by (auto simp: find_Some_iff)
qed

lemma at_most_one_entry:
  assumes "distinct (map fst obj)"
  shows "length (filter (\<lambda>entry. fst entry = n) obj) \<le> 1"
proof (cases "map_of obj n")
  case None
  then have "filter (\<lambda>entry. fst entry = n) obj = []"
    by (auto simp: filter_empty_conv map_of_eq_None_iff image_iff)
  then show ?thesis by simp
next
  case (Some v)
  with assms have "filter (\<lambda>entry. fst entry = n) obj = [(n, v)]"
    by (rule single_entry)
  then show ?thesis by simp
qed

text \<open>
  C3, amended. Take a member name that is not one every object inherits. Then the merged
  map of a kind (properties, accessors or methods) binds the name to the record of the
  first declaration with public or unspecified scope met when walking from the requested
  class up its chain of base classes, and to nothing when there is none; the name is a
  key at most once; and when the requested class itself has such a declaration, the name
  is a key exactly once, bound to the record of the class's own first such declaration,
  whatever its ancestors declare.
\<close>

theorem first_public_declaration_wins:
  assumes "n \<notin> set Object_prototype_keys"
  shows "map_of (merged kind c) n = map_option memberMapOf (firstPublic n (declaredInChain kind c))
         \<and> length (filter (\<lambda>entry. fst entry = n) (merged kind c)) \<le> 1
         \<and> (\<forall>d. firstPublic n (declared kind c) = Some d \<longrightarrow>
                filter (\<lambda>entry. fst entry = n) (merged kind c) = [(n, memberMapOf d)])"
proof (intro conjI allI impI)
  show lookup: "map_of (merged kind c) n
                  = map_option memberMapOf (firstPublic n (declaredInChain kind c))"
    using assms by (simp add: merged_lookup)
  show "length (filter (\<lambda>entry. fst entry = n) (merged kind c)) \<le> 1"
    using merged_distinct by (rule at_most_one_entry)
  fix d
  assume own: "firstPublic n (declared kind c) = Some d"
  have "firstPublic n (declaredInChain kind c) = Some d"
    using own by (subst declaredInChain_unfold) (simp add: firstPublic_append)
  with lookup have "map_of (merged kind c) n = Some (memberMapOf d)"
    by simp
  with merged_distinct show "filter (\<lambda>entry. fst entry = n) (merged kind c) = [(n, memberMapOf d)]"
    by (rule single_entry)
qed

theorem first_public_declaration_wins_witness:
  "exampleBaseX \<in> set (declared PropertyKind exampleBase)
   \<and> getBaseClass exampleDerived = Some exampleBase
   \<and> filter (\<lambda>entry. fst entry = ''x'') (merged PropertyKind exampleDerived)
       = [(''x'', memberMapOf exampleDerivedX)]"
proof -
  have name: "''x'' \<notin> set Object_prototype_keys"
    by (simp add: Object_prototype_keys_def)
  have own: "firstPublic ''x'' (declared PropertyKind exampleDerived) = Some exampleDerivedX"
    by (simp add: firstPublic_def exampleDerived_def exampleDerivedX_def isPublic_def)
  from first_public_declaration_wins[OF name, of PropertyKind exampleDerived] own
  have "filter (\<lambda>entry. fst entry = ''x'') (merged PropertyKind exampleDerived)
          = [(''x'', memberMapOf exampleDerivedX)]"
    by blast
  then show ?thesis
    by (simp add: exampleBase_def exampleDerived_def)
qed

text \<open>
  C3 as stated fails where the requested class declares the name with private scope and
  an ancestor declares it with public or unspecified scope: the reducer skips the private
  declaration, the name is still no key when the walk reaches the ancestor, and the map
  binds the name to the ancestor's record, not to the record of the most-derived class.
\<close>

theorem private_redeclaration_counterexample:
  "examplePrivateX \<in> set (getProperties examplePrivate)
   \<and> getBaseClass examplePrivate = Some exampleBase
   \<and> exampleBaseX \<in> set (getProperties exampleBase)
   \<and> structName examplePrivateX = structName exampleBaseX
   \<and> getPublicProperties examplePrivate [] = [(''x'', memberMapOf exampleBaseX)]
   \<and> memberMapOf exampleBaseX \<noteq> memberMapOf examplePrivateX"
proof -
  have "classChain exampleBase = [exampleBase]"
    by (rule classChain_root) (simp add: exampleBase_def)
  moreover have "classChain examplePrivate = examplePrivate # classChain exampleBase"
    by (rule classChain_child) (simp add: examplePrivate_def)
  ultimately have chain: "classChain examplePrivate = [examplePrivate, exampleBase]"
    by simp
  have "getPublicProperties examplePrivate [] = [(''x'', memberMapOf exampleBaseX)]"
    unfolding getPublicProperties_fold chain
    by (simp add: examplePrivate_def exampleBase_def propertiesReduceFn_eq isPublic_def
        examplePrivateX_def exampleBaseX_def truthy_def getProp_def Object_prototype_keys_def)
  moreover have "memberMapOf exampleBaseX \<noteq> memberMapOf examplePrivateX"
    by (simp add: memberMapOf_def exampleBaseX_def examplePrivateX_def)
  ultimately show ?thesis
    by (simp add: examplePrivate_def exampleBase_def) (simp add: examplePrivateX_def exampleBaseX_def)
qed

text \<open>
  C8. In every state the parser can reach, every entry of the properties, accessors and
  methods maps of every class record in the registry was built from a declaration of that
  name, found in the class or in one of its ancestors, whose scope is public or
  unspecified. So no entry stems from a private or protected declaration.
\<close>

theorem member_maps_public_only:
  assumes "reachable classes this"
    and "map_of (classesDataMap this) className = Some data"
    and "(n, v) \<in> set (memberMaps kind data)"
  shows "\<exists>c. find (\<lambda>c. getName c = Some className) classes = Some c
           \<and> (\<exists>d\<in>set (declaredInChain kind c). structName d = n \<and> isPublic d \<and> v = memberMapOf d)"
proof -
  from reachable_entries[OF assms(1,2)] obtain c
    where c: "find (\<lambda>c. getName c = Some className) classes = Some c"
      and data: "data = classDataOf c"
    by blast
  have "memberMaps kind data = merged kind c"
    unfolding data by (cases kind) (simp_all add: classDataOf_def)
  with assms(3) have "(n, v) \<in> set (merged kind c)"
    by simp
  from merged_entry_public[OF this] c show ?thesis by blast
qed

theorem member_maps_public_only_witness:
  "\<exists>c. find (\<lambda>c. getName c = Some ''Hidden'') [examplePrivate] = Some c
      \<and> (\<exists>d\<in>set (declaredInChain PropertyKind c).
            structName d = ''x'' \<and> isPublic d \<and> memberMapOf exampleBaseX = memberMapOf d)"
proof -
  let ?start = "newTsFileParser [examplePrivate]"
  let ?after = "snd (getClassData ?start ''Hidden'')"
  have "reachable [examplePrivate] ?start"
    by (rule reachable.fresh)
  then have state: "reachable [examplePrivate] ?after"
    by (rule reachable.call)
  have declared: "find (\<lambda>c. getName c = Some ''Hidden'') (sourceFile ?start) = Some examplePrivate"
    by (simp add: newTsFileParser_def examplePrivate_def)
  have new: "\<not> truthy (getProp (classesDataMap ?start) ''Hidden'')"
    by (simp add: newTsFileParser_def truthy_def getProp_def Object_prototype_keys_def)
  have entry: "map_of (classesDataMap ?after) ''Hidden'' = Some (classDataOf examplePrivate)"
    by (simp add: getClassData_found[OF declared new] map_of_setProp)
  have name: "''x'' \<notin> set Object_prototype_keys"
    by (simp add: Object_prototype_keys_def)
  have "firstPublic ''x'' (declaredInChain PropertyKind exampleBase) = Some exampleBaseX"
    by (subst declaredInChain_unfold)
       (simp add: firstPublic_def exampleBase_def exampleBaseX_def isPublic_def)
  then have "firstPublic ''x'' (declaredInChain PropertyKind examplePrivate) = Some exampleBaseX"
    by (subst declaredInChain_unfold)
       (simp add: firstPublic_append, simp add: firstPublic_def examplePrivate_def
          examplePrivateX_def isPublic_def)
  then have "map_of (merged PropertyKind examplePrivate) ''x'' = Some (memberMapOf exampleBaseX)"
    using name by (simp only: merged_lookup if_False option.map)
  then have "(''x'', memberMapOf exampleBaseX) \<in> set (merged PropertyKind examplePrivate)"
    by (rule map_of_SomeD)
  then have member: "(''x'', memberMapOf exampleBaseX)
                       \<in> set (memberMaps PropertyKind (classDataOf examplePrivate))"
    by (simp add: classDataOf_def)
  show ?thesis
    by (rule member_maps_public_only[OF state entry member])
qed

section \<open>The document update\<close>

lemma indexOf_ge: "- 1 \<le> indexOf s p"
  by (induction s) (auto simp: Let_def)

lemma indexOf_found: "indexOf s p = int i \<Longrightarrow> prefix p (drop i s)"
proof (induction s arbitrary: i)
  case Nil
  then show ?case by (simp split: if_splits)
next
  case (Cons c cs)
  show ?case
  proof (cases "prefix p (c # cs)")
    case True
    with Cons.prems show ?thesis by simp
  next
    case False
    with Cons.prems have "indexOf cs p \<noteq> - 1" and "indexOf cs p + 1 = int i"
      by (auto simp: Let_def split: if_splits)
    moreover from indexOf_ge[of cs p] \<open>indexOf cs p \<noteq> - 1\<close> have "0 \<le> indexOf cs p" by simp
    ultimately obtain j where "indexOf cs p = int j" and "i = Suc j"
      by (metis nat_int nat_0_le Suc_eq_plus1 of_nat_Suc add.commute)
    with Cons.IH[of j] show ?thesis by simp
  qed
qed

lemma indexOf_bound: "indexOf s p = int i \<Longrightarrow> i + length p \<le> length s"
proof -
  assume "indexOf s p = int i"
  then have "prefix p (drop i s)" by (rule indexOf_found)
  then have "length p \<le> length (drop i s)" by (rule prefix_length_le)
  moreover have "i \<le> length s"
  proof (rule ccontr)
    assume "\<not> i \<le> length s"
    then have "drop i s = []" by simp
    with \<open>prefix p (drop i s)\<close> have "p = []" by simp
    with \<open>indexOf s p = int i\<close> \<open>\<not> i \<le> length s\<close> show False
      by (cases s) auto
  qed
  ultimately show ?thesis by simp
qed

lemma take_through: "indexOf s p = int i \<Longrightarrow> take (i + length p) s = take i s @ p"
proof -
  assume a: "indexOf s p = int i"
  then obtain rest where "drop i s = p @ rest"
    using indexOf_found prefix_def by blast
  then have "take (length p) (drop i s) = p" by simp
  then show ?thesis by (simp add: take_add)
qed

lemma drop_from: "indexOf s p = int i \<Longrightarrow> drop i s = p @ drop (i + length p) s"
proof -
  assume a: "indexOf s p = int i"
  then obtain rest where r: "drop i s = p @ rest"
    using indexOf_found prefix_def by blast
  then have "drop (length p) (drop i s) = rest" by simp
  then have "drop (i + length p) s = rest" by (simp add: add.commute)
  with r show ?thesis by simp
qed

lemma slice_prefix: "n \<le> length s \<Longrightarrow> slice s 0 (int n) = take n s"
  by (simp add: slice_def Let_def min_def)

lemma sliceFrom_suffix: "n \<le> length s \<Longrightarrow> sliceFrom s (int n) = drop n s"
  by (simp add: sliceFrom_def slice_def Let_def min_def)

lemma sliceFrom_minus_one: "sliceFrom s (- 1) = drop (length s - 1) s"
  by (cases "s = []") (auto simp: sliceFrom_def slice_def Let_def max_def nat_diff_distrib)

lemma endIndex_never_minus_one:
  "indexOf content (endComment className) + int (length (endComment className)) \<noteq> - 1"
  using indexOf_ge[of content "endComment className"] by (simp add: endComment_def)

lemma writeApiClassContent_unreadable:
  "mdFile this = None \<Longrightarrow>
     writeApiClassContent cmp this className = (Inl IOError, this\<lparr>effects := effects this @ [ReadFile]\<rparr>)"
  by (simp add: writeApiClassContent_def readFileAsync_def)

lemma writeApiClassContent_no_start:
  assumes "mdFile this = Some content"
    and "indexOf content (startComment className) = - 1"
  shows "writeApiClassContent cmp this className =
           (Inr (), this\<lparr>effects := effects this @
              [ReadFile,
               ConsoleError (''Start and/or end comments not found for '' @ className @ '' in the file.'')]\<rparr>)"
  using assms by (simp add: writeApiClassContent_def readFileAsync_def Let_def)

lemma writeApiClassContent_throws:
  assumes "mdFile this = Some content"
    and "indexOf content (startComment className) \<noteq> - 1"
    and "fst (getApiClassContent cmp this className) = Inl e"
  shows "writeApiClassContent cmp this className =
           (Inl e, (snd (getApiClassContent cmp this className))\<lparr>effects := effects this @ [ReadFile]\<rparr>)"
proof -
  obtain r this2 where g: "getApiClassContent cmp this className = (r, this2)"
    by (cases "getApiClassContent cmp this className")
  with assms(3) have r: "r = Inl e" by simp
  show ?thesis
    using assms(1,2) endIndex_never_minus_one[of content className]
    by (simp add: writeApiClassContent_def readFileAsync_def Let_def getApiClassContent_frame g r)
qed

lemma writeApiClassContent_writes:
  assumes "mdFile this = Some content"
    and "indexOf content (startComment className) = int i"
    and "fst (getApiClassContent cmp this className) = Inr fragment"
    and "mdWritable this"
  shows "writeApiClassContent cmp this className =
           (Inr (),
            (snd (getApiClassContent cmp this className))
              \<lparr>mdFile := Some (take (i + length (startComment className)) content
                               @ ''\<newline>'' @ fragment
                               @ sliceFrom content (indexOf content (endComment className))),
               effects := effects this @
                 [ReadFile,
                  WriteFile (take (i + length (startComment className)) content
                               @ ''\<newline>'' @ fragment
                               @ sliceFrom content (indexOf content (endComment className))),
                  ConsoleLog (''Content for '' @ className @ '' inserted successfully.'')]\<rparr>)"
proof -
  obtain r this2 where g: "getApiClassContent cmp this className = (r, this2)"
    by (cases "getApiClassContent cmp this className")
  with assms(3) have r: "r = Inr fragment" by simp
  from g getApiClassContent_file[of cmp this className]
  have w: "mdWritable this2 = mdWritable this" by simp
  have bound: "i + length (startComment className) \<le> length content"
    using assms(2) by (rule indexOf_bound)
  have sl: "slice content 0 (int i + int (length (startComment className)))
             = take (i + length (startComment className)) content"
    using slice_prefix[OF bound] by simp
  show ?thesis
    using assms(1,2,4) endIndex_never_minus_one[of content className] w sl
    unfolding writeApiClassContent_def readFileAsync_def
    by (simp add: Let_def getApiClassContent_frame g r writeFileAsync_def)
qed

lemma writeApiClassContent_unwritable:
  assumes "mdFile this = Some content"
    and "indexOf content (startComment className) \<noteq> - 1"
    and "fst (getApiClassContent cmp this className) = Inr fragment"
    and "\<not> mdWritable this"
  shows "fst (writeApiClassContent cmp this className) = Inl IOError
         \<and> mdFile (snd (writeApiClassContent cmp this className)) = Some content"
proof -
  obtain r this2 where g: "getApiClassContent cmp this className = (r, this2)"
    by (cases "getApiClassContent cmp this className")
  with assms(3) have r: "r = Inr fragment" by simp
  from g getApiClassContent_file[of cmp this className]
  have w: "mdWritable this2 = mdWritable this" and f: "mdFile this2 = mdFile this" by simp_all
  show ?thesis
    using assms(1,2,4) endIndex_never_minus_one[of content className] w f
    unfolding writeApiClassContent_def readFileAsync_def
    by (simp add: Let_def getApiClassContent_frame g r writeFileAsync_def)
qed

lemma classDataOf_exampleFoo:
  "classDataOf exampleFoo =
     \<lparr>classTitle = ''Foo'', classDescription = None,
      constructor = \<lparr>ctorTitle = None, ctorDescription = None\<rparr>,
      properties = [], accessors = [], methods = []\<rparr>"
proof -
  have "classChain exampleFoo = [exampleFoo]"
    by (rule classChain_root) (simp add: exampleFoo_def)
  then show ?thesis
    by (simp add: classDataOf_def getPublicProperties_fold getPublicAccessors_fold
        getPublicMethods_fold)
       (simp add: exampleFoo_def getTypedClassName_def template_def firstCommentText_def)
qed

lemma exampleFoo_fragment:
  "fst (getApiClassContent cmp (newMdWriter [exampleFoo] stored) ''Foo'') = Inr exampleFragment"
proof -
  let ?p = "newTsFileParser [exampleFoo]"
  have declared: "find (\<lambda>c. getName c = Some ''Foo'') (sourceFile ?p) = Some exampleFoo"
    by (simp add: newTsFileParser_def exampleFoo_def)
  have new: "\<not> truthy (getProp (classesDataMap ?p) ''Foo'')"
    by (simp add: newTsFileParser_def truthy_def getProp_def Object_prototype_keys_def)
  have parser: "tsFileParser (newMdWriter [exampleFoo] stored) = ?p"
    by (simp add: newMdWriter_def)
  have got: "getClassData (tsFileParser (newMdWriter [exampleFoo] stored)) ''Foo'' =
          (Inr (Own (classDataOf exampleFoo)),
           ?p\<lparr>classesDataMap := setProp (classesDataMap ?p) ''Foo'' (classDataOf exampleFoo)\<rparr>)"
    unfolding parser using declared new by (rule getClassData_found)
  have ps: "printMap cmp ''Properties'' (properties (classDataOf exampleFoo)) = Inr ''\<newline>''"
    by (simp add: classDataOf_exampleFoo printMap_empty)
  have as: "printMap cmp ''Accessors'' (accessors (classDataOf exampleFoo)) = Inr ''\<newline>''"
    by (simp add: classDataOf_exampleFoo printMap_empty)
  have ms: "printMap cmp ''Methods'' (methods (classDataOf exampleFoo)) = Inr ''\<newline>''"
    by (simp add: classDataOf_exampleFoo printMap_empty)
  show ?thesis
    unfolding getApiClassContent_Own[OF got ps as ms]
    by (simp add: classDataOf_exampleFoo printH3_def printH4_def printDescription_def
        printListItem_def template_def exampleFragment_def)
qed

text \<open>
  C6. Let the file be readable and writable, let both markers of the class occur in its
  text, the first start marker at position \<open>i\<close> and the first end marker at position
  \<open>j\<close>, and let the fragment of the class render. Then the call succeeds and the file
  holds the text up to and including the start marker, a line break, the fragment, and
  the text from the end marker on; this text is written once, between the read and the
  success message. The part before the line break ends with the start marker and the part
  after the fragment begins with the end marker. When the start marker ends before the
  end marker begins, the old text is the same but for what stood between the two markers.
\<close>

theorem markers_found_update:
  assumes "mdFile this = Some content"
    and "mdWritable this"
    and "indexOf content (startComment className) = int i"
    and "indexOf content (endComment className) = int j"
    and "fst (getApiClassContent localeCompare this className) = Inr fragment"
  shows "fst (writeApiClassContent localeCompare this className) = Inr ()
         \<and> mdFile (snd (writeApiClassContent localeCompare this className)) =
             Some (take (i + length (startComment className)) content
                   @ ''\<newline>'' @ fragment @ drop j content)
         \<and> take (i + length (startComment className)) content = take i content @ startComment className
         \<and> drop j content = endComment className @ drop (j + length (endComment className)) content
         \<and> effects (snd (writeApiClassContent localeCompare this className)) =
             effects this @
               [ReadFile,
                WriteFile (take i content @ startComment className @ ''\<newline>'' @ fragment
                           @ endComment className @ drop (j + length (endComment className)) content),
                ConsoleLog (''Content for '' @ className @ '' inserted successfully.'')]
         \<and> (i + length (startComment className) \<le> j \<longrightarrow>
              content = take i content @ startComment className
                        @ take (j - (i + length (startComment className)))
                               (drop (i + length (startComment className)) content)
                        @ endComment className @ drop (j + length (endComment className)) content)"
proof -
  have jbound: "j \<le> length content"
    using indexOf_bound[OF assms(4)] by simp
  have suffix: "sliceFrom content (indexOf content (endComment className)) = drop j content"
    using sliceFrom_suffix[OF jbound] assms(4) by simp
  note w = writeApiClassContent_writes[OF assms(1,3,5,2), unfolded suffix]
  have pre: "take (i + length (startComment className)) content = take i content @ startComment className"
    using assms(3) by (rule take_through)
  have post: "drop j content = endComment className @ drop (j + length (endComment className)) content"
    using assms(4) by (rule drop_from)
  have between: "content = take i content @ startComment className
                        @ take (j - (i + length (startComment className)))
                               (drop (i + length (startComment className)) content)
                        @ endComment className @ drop (j + length (endComment className)) content"
    if "i + length (startComment className) \<le> j"
  proof -
    let ?k = "i + length (startComment className)"
    have "content = take ?k content @ drop ?k content"
      by (rule append_take_drop_id[symmetric])
    also have "drop ?k content = take (j - ?k) (drop ?k content) @ drop (j - ?k) (drop ?k content)"
      by (rule append_take_drop_id[symmetric])
    also have "drop (j - ?k) (drop ?k content) = drop j content"
      using that by simp
    finally show ?thesis
      unfolding pre post by simp
  qed
  show ?thesis
    using w pre post between by simp
qed

theorem markers_found_update_witness:
  "mdFile (snd (writeApiClassContent compareLength (newMdWriter [exampleFoo] (Some exampleDocument)) ''Foo''))
     = Some (''# API\<newline><!-- START CLASS API: Foo -->\<newline>'' @ exampleFragment
             @ ''<!-- END CLASS API: Foo -->\<newline>footer'')"
proof -
  let ?w = "newMdWriter [exampleFoo] (Some exampleDocument)"
  have stored: "mdFile ?w = Some exampleDocument"
    by (simp add: newMdWriter_def)
  have writable: "mdWritable ?w"
    by (simp add: newMdWriter_def)
  have start: "indexOf exampleDocument (startComment ''Foo'') = int 6"
    by (simp add: startComment_def exampleDocument_def)
  have fin: "indexOf exampleDocument (endComment ''Foo'') = int 40"
    by (simp add: endComment_def exampleDocument_def)
  from markers_found_update[OF stored writable start fin exampleFoo_fragment]
  have "mdFile (snd (writeApiClassContent compareLength ?w ''Foo'')) =
          Some (take (6 + length (startComment ''Foo'')) exampleDocument
                @ ''\<newline>'' @ exampleFragment @ drop 40 exampleDocument)"
    by blast
  then show ?thesis
    by (simp add: startComment_def exampleDocument_def)
qed

text \<open>
  C1. The document holds the start marker of \<^verbatim>\<open>Foo\<close> and nothing else, so the end
  marker is absent. \<open>endIndex\<close> is \<open>-1\<close> plus the length of the end marker and passes
  the test against \<open>-1\<close>: the file is rewritten, with the last character of the old text
  after the fragment, and the success message is logged.
\<close>

theorem start_marker_alone_is_written:
  "indexOf ''<!-- START CLASS API: Foo -->'' (endComment ''Foo'') = - 1
   \<and> mdFile (snd (writeApiClassContent compareLength
                     (newMdWriter [exampleFoo] (Some ''<!-- START CLASS API: Foo -->'')) ''Foo''))
       = Some (''<!-- START CLASS API: Foo -->\<newline>'' @ exampleFragment @ ''>'')
   \<and> effects (snd (writeApiClassContent compareLength
                     (newMdWriter [exampleFoo] (Some ''<!-- START CLASS API: Foo -->'')) ''Foo''))
       = [ReadFile,
          WriteFile (''<!-- START CLASS API: Foo -->\<newline>'' @ exampleFragment @ ''>''),
          ConsoleLog ''Content for Foo inserted successfully.'']"
proof -
  let ?doc = "''<!-- START CLASS API: Foo -->''"
  let ?w = "newMdWriter [exampleFoo] (Some ?doc)"
  have stored: "mdFile ?w = Some ?doc"
    by (simp add: newMdWriter_def)
  have writable: "mdWritable ?w"
    by (simp add: newMdWriter_def)
  have start: "indexOf ?doc (startComment ''Foo'') = int 0"
    by (simp add: startComment_def)
  have absent: "indexOf ?doc (endComment ''Foo'') = - 1"
    by (simp add: endComment_def)
  have tail: "sliceFrom ?doc (indexOf ?doc (endComment ''Foo'')) = ''>''"
    unfolding absent sliceFrom_minus_one by simp
  have head: "take (0 + length (startComment ''Foo'')) ?doc = ?doc"
    by (simp add: startComment_def)
  note w = writeApiClassContent_writes[OF stored start exampleFoo_fragment writable,
      unfolded tail head]
  have "effects ?w = []"
    by (simp add: newMdWriter_def)
  with absent show ?thesis
    unfolding w by simp
qed

text \<open>What does hold of C1 and C5: without the start marker nothing is written and the
  markers are reported missing, and for a name that no class declares nothing is written
  either, whatever the document holds.\<close>

lemma getApiClassContent_undeclared:
  assumes "reachable classes (tsFileParser this)"
    and "find (\<lambda>c. getName c = Some className) classes = None"
  shows "fst (getApiClassContent cmp this className) =
           Inl (if className \<in> set Object_prototype_keys then TypeError else ClassNameNotFound)"
proof (cases "className \<in> set Object_prototype_keys")
  case True
  with reachable_getClassData_undeclared[OF assms]
  have "fst (getClassData (tsFileParser this) className) = Inr (Inherited className)"
    by simp
  from getApiClassContent_Inherited[OF this] True show ?thesis by simp
next
  case False
  with reachable_getClassData_undeclared[OF assms]
  have "fst (getClassData (tsFileParser this) className) = Inl ClassNameNotFound"
    by simp
  from getApiClassContent_throws[OF this] False show ?thesis by simp
qed

lemma undeclared_class_no_write:
  assumes "reachable classes (tsFileParser this)"
    and "find (\<lambda>c. getName c = Some className) classes = None"
  shows "mdFile (snd (writeApiClassContent cmp this className)) = mdFile this
         \<and> (effects (snd (writeApiClassContent cmp this className)) = effects this @ [ReadFile]
            \<or> effects (snd (writeApiClassContent cmp this className)) =
                effects this @
                  [ReadFile,
                   ConsoleError (''Start and/or end comments not found for '' @ className
                                 @ '' in the file.'')])"
proof (cases "mdFile this")
  case None
  then show ?thesis by (simp add: writeApiClassContent_unreadable)
next
  case (Some content)
  show ?thesis
  proof (cases "indexOf content (startComment className) = - 1")
    case True
    with Some show ?thesis by (simp add: writeApiClassContent_no_start)
  next
    case False
    from writeApiClassContent_throws[OF Some False getApiClassContent_undeclared[OF assms]]
    show ?thesis
      using getApiClassContent_file[of cmp this className] by simp
  qed
qed

end
